theory Spec2Isabelle
  imports Main
begin

section \<open>Loading pretrained models: \<open>demucs/pretrained.py\<close>\<close>

text \<open>
  A shallow embedding of \<open>src/demucs/pretrained.py\<close>. Python strings are \<open>string\<close>
  (code points below 256), the dictionary built by the catalog parser is an association
  list in insertion order, every \<open>raise\<close>, failed \<open>assert\<close> and \<open>fatal\<close> is an
  \<open>Inl\<close> value, and what a function does to the outside world (constructing a model,
  building a quantizer, downloading, applying a state, calling \<open>eval\<close>) is an explicit
  list of events returned together with the outcome, kept also when the outcome is an error.
  The events of the quantizer and of \<open>set_state\<close> carry the arguments of the call, the
  model in the state it has at that moment included.
\<close>

subsection \<open>Python string operations\<close>

text \<open>\<open>str.isspace\<close> on one character, for the code points below 256.\<close>

definition is_space :: "char \<Rightarrow> bool" where
  "is_space c = (c \<in> set [CHR 0x09, CHR 0x0A, CHR 0x0B, CHR 0x0C, CHR 0x0D,
                            CHR 0x1C, CHR 0x1D, CHR 0x1E, CHR 0x1F, CHR 0x20,
                            CHR 0x85, CHR 0xA0])"

text \<open>\<open>s.strip()\<close>: whitespace removed at both ends.\<close>

definition strip :: "string \<Rightarrow> string" where
  "strip s = rev (dropWhile is_space (rev (dropWhile is_space s)))"

text \<open>\<open>s.startswith(p)\<close>.\<close>

definition startswith :: "string \<Rightarrow> string \<Rightarrow> bool" where
  "startswith s p = (take (length p) s = p)"

text \<open>\<open>s.split(c)\<close> for a one-character separator: always at least one piece.\<close>

fun split_on :: "char \<Rightarrow> string \<Rightarrow> string list" where
  "split_on c [] = [[]]"
| "split_on c (x # xs) =
     (if x = c then [] # split_on c xs
      else (case split_on c xs of
              [] \<Rightarrow> [[x]]
            | w # ws \<Rightarrow> (x # w) # ws))"

text \<open>\<open>s.split(c, 1)\<close>: one piece when \<open>c\<close> does not occur, else the text before the
  first \<open>c\<close> and the text after it.\<close>

definition split1 :: "char \<Rightarrow> string \<Rightarrow> string list" where
  "split1 c s =
     (case dropWhile (\<lambda>x. x \<noteq> c) s of
        [] \<Rightarrow> [s]
      | _ # r \<Rightarrow> [takeWhile (\<lambda>x. x \<noteq> c) s, r])"

text \<open>\<open>str(n)\<close> for an integer: decimal digits, with a minus sign below zero.\<close>

fun str_nat :: "nat \<Rightarrow> string" where
  "str_nat n =
     (if n < 10 then [''0123456789'' ! n]
      else str_nat (n div 10) @ [''0123456789'' ! (n mod 10)])"

declare str_nat.simps [simp del]

definition str :: "int \<Rightarrow> string" where
  "str i = (if i < 0 then CHR ''-'' # str_nat (nat (- i)) else str_nat (nat i))"

subsection \<open>Errors, models and effects\<close>

datatype error =
    ValueError string
  | KeyError string
  | AssertionError
  | IndexError
  | SystemExit string
  | ModelLoadingError string
  | HubError string

datatype arch = ArchDemucs | ArchHDemucs | ArchConvTasNet

type_synonym state_dict = string

text \<open>
  A model object, as far as this module observes it: what built it, the state applied
  to it, the \<open>training\<close> flag that \<open>eval()\<close> clears, and whether a quantizer's forward
  hooks are registered on it.
\<close>

record model =
  arch :: arch
  width :: int
  sources :: "string list"
  weights :: "state_dict option"
  training :: bool
  hooks :: bool

record quantizer =
  group_size :: int
  min_size :: int

datatype event =
    EvConstruct arch int
  | EvQuantizer model int int
  | EvDownload string
  | EvSetState model "quantizer option" state_dict
  | EvDetach quantizer
  | EvResolve string
  | EvEval

type_synonym 'a run = "event list \<times> (error + 'a)"

text \<open>Sequencing: the events of both steps in order; an error stops the run.\<close>

definition seq :: "'a run \<Rightarrow> ('a \<Rightarrow> 'b run) \<Rightarrow> 'b run" where
  "seq m f =
     (case m of
        (evs, Inl e) \<Rightarrow> (evs, Inl e)
      | (evs, Inr x) \<Rightarrow> (case f x of (evs', r) \<Rightarrow> (evs @ evs', r)))"

definition SOURCES :: "string list" where
  "SOURCES = [''drums'', ''bass'', ''other'', ''vocals'']"

text \<open>
  Modelled from the spec: the constructors of \<open>model.py\<close>, \<open>hdemucs.py\<close> and
  \<open>tasnet_v2.py\<close> are missing from the sources; the spec consumes the architectures as
  constructible, loadable targets. A new module has no state applied, no hooks, and is
  in training mode until \<open>eval()\<close> is called.
\<close>

definition Demucs :: "int \<Rightarrow> string list \<Rightarrow> model" where
  "Demucs channels srcs =
     \<lparr>arch = ArchDemucs, width = channels, sources = srcs, weights = None,
      training = True, hooks = False\<rparr>"

definition HDemucs :: "int \<Rightarrow> string list \<Rightarrow> model" where
  "HDemucs channels srcs =
     \<lparr>arch = ArchHDemucs, width = channels, sources = srcs, weights = None,
      training = True, hooks = False\<rparr>"

definition ConvTasNet :: "int \<Rightarrow> string list \<Rightarrow> model" where
  "ConvTasNet X srcs =
     \<lparr>arch = ArchConvTasNet, width = X, sources = srcs, weights = None,
      training = True, hooks = False\<rparr>"

text \<open>
  Modelled from the spec: the quantization codec (\<open>diffq.DiffQuantizer\<close>) is missing from
  the sources; the spec consumes it as an attach/detach pair: wrapping a model registers
  the codec's runtime hooks on it, \<open>detach()\<close> removes them. Each call is an event that
  carries its arguments: the model as it is when the codec is built around it, and the
  codec that is detached.
\<close>

definition DiffQuantizer :: "model \<Rightarrow> int \<Rightarrow> int \<Rightarrow> (quantizer \<times> model) run" where
  "DiffQuantizer m gs ms =
     ([EvQuantizer m gs ms], Inr (\<lparr>group_size = gs, min_size = ms\<rparr>, m\<lparr>hooks := True\<rparr>))"

definition detach :: "quantizer \<Rightarrow> model \<Rightarrow> model run" where
  "detach q m = ([EvDetach q], Inr (m\<lparr>hooks := False\<rparr>))"

text \<open>
  Modelled from the spec: \<open>utils.set_state\<close> is missing from the sources; the spec has it
  apply the state record onto the model's parameters (through the quantizer when one is
  given), mutating nothing else. The call is an event that carries its three arguments,
  the model in the state in which it is passed.
\<close>

definition set_state :: "model \<Rightarrow> quantizer option \<Rightarrow> state_dict \<Rightarrow> model run" where
  "set_state m q st = ([EvSetState m q st], Inr (m\<lparr>weights := Some st\<rparr>))"

text \<open>\<open>model.eval()\<close>.\<close>

definition eval_mode :: "model \<Rightarrow> model" where
  "eval_mode m = m\<lparr>training := False\<rparr>"

subsection \<open>The catalog parser\<close>

definition ROOT_URL :: string where
  "ROOT_URL = ''https://dl.fbaipublicfiles.com/demucs/mdx_final/''"

type_synonym catalog = "(string \<times> string) list"

text \<open>
  \<open>models[sig] = url\<close> on a dictionary kept in insertion order: a new key is appended,
  an existing key keeps its place and takes the new value.
\<close>

definition dict_set :: "catalog \<Rightarrow> string \<Rightarrow> string \<Rightarrow> catalog" where
  "dict_set models k v =
     (if map_of models k = None then models @ [(k, v)]
      else map (\<lambda>(k', v'). if k' = k then (k', v) else (k', v')) models)"

text \<open>
  The loop of \<open>_parse_remote_files\<close> over the lines still to read, with the variables
  \<open>root\<close> and \<open>models\<close> as arguments. The first argument is Python's \<open>__debug__\<close>:
  whether \<open>assert\<close> statements are executed (they are by default, and are not under
  \<open>python -O\<close>). When they are, \<open>assert sig not in models\<close> is the \<open>AssertionError\<close>
  branch; when they are not, the assignment overwrites the earlier entry.
\<close>

fun parse_lines :: "bool \<Rightarrow> string \<Rightarrow> catalog \<Rightarrow> string list \<Rightarrow> error + catalog" where
  "parse_lines debug root models [] = Inr models"
| "parse_lines debug root models (raw # rest) =
     (let line = strip raw in
      if startswith line ''#'' then parse_lines debug root models rest
      else if startswith line ''root:'' then
        (case split1 CHR '':'' line of
           [_, r] \<Rightarrow> parse_lines debug (strip r) models rest
         | _ \<Rightarrow> Inl IndexError)
      else
        (case split1 CHR ''-'' line of
           [] \<Rightarrow> Inl IndexError
         | sig # _ \<Rightarrow>
             if debug \<and> map_of models sig \<noteq> None then Inl AssertionError
             else parse_lines debug root (dict_set models sig (ROOT_URL @ root @ line)) rest))"

text \<open>\<open>_parse_remote_files\<close>, on the text that \<open>read_text()\<close> returned.\<close>

definition parse_remote_files :: "bool \<Rightarrow> string \<Rightarrow> error + catalog" where
  "parse_remote_files debug text = parse_lines debug [] [] (split_on CHR 0x0A text)"

subsection \<open>The collaborators outside this module\<close>

text \<open>
  What the module calls and does not define: \<open>torch.hub.load_state_dict_from_url\<close>
  (with \<open>check_hash=True\<close>; it returns a state or raises), the text of
  \<open>remote/files.txt\<close>, \<open>Path.is_dir\<close>, and the lookup of
  \<open>AnyModelRepo(model_repo, bag_repo).get_model\<close> over the repository that was built;
  and the interpreter's \<open>__debug__\<close>, which says whether \<open>assert\<close> statements run.
\<close>

datatype repo_source = RemoteRepo catalog | LocalRepo string

record env =
  debug :: bool
  hub_load :: "string \<Rightarrow> error + state_dict"
  files_txt :: string
  is_dir :: "string \<Rightarrow> bool"
  any_repo_get_model :: "repo_source \<Rightarrow> string \<Rightarrow> error + model"

subsection \<open>The first definition of \<open>demucs_unittest\<close> (lines 34 to 36)\<close>

text \<open>
  The module defines \<open>demucs_unittest\<close> twice. This is the first definition; the second
  one below rebinds the name, so every call made after the module is loaded, the one in
  \<open>get_model\<close> included, runs the second.
\<close>

definition demucs_unittest_first :: "model run" where
  "demucs_unittest_first = ([EvConstruct ArchHDemucs 4], Inr (HDemucs 4 SOURCES))"

subsection \<open>The legacy table and its URLs\<close>

definition ROOT :: string where
  "ROOT = ''https://dl.fbaipublicfiles.com/demucs/v3.0/''"

definition PRETRAINED_MODELS :: "(string \<times> string) list" where
  "PRETRAINED_MODELS =
     [(''demucs'', ''e07c671f''),
      (''demucs48_hq'', ''28a1282c''),
      (''demucs_extra'', ''3646af93''),
      (''demucs_quantized'', ''07afea75''),
      (''tasnet'', ''beb46fac''),
      (''tasnet_extra'', ''df3777b2''),
      (''demucs_unittest'', ''09ebc15f'')]"

text \<open>\<open>get_url\<close> over a table given as an argument: the module reads the global
  \<open>PRETRAINED_MODELS\<close>; a missing key is Python's \<open>KeyError\<close>, and \<open>sig[:8]\<close> is
  \<open>take 8\<close>.\<close>

definition get_url_in :: "(string \<times> string) list \<Rightarrow> string \<Rightarrow> error + string" where
  "get_url_in table name =
     (case map_of table name of
        None \<Rightarrow> Inl (KeyError name)
      | Some sig \<Rightarrow> Inr (ROOT @ name @ ''-'' @ take 8 sig @ ''.th''))"

definition get_url :: "string \<Rightarrow> error + string" where
  "get_url name = get_url_in PRETRAINED_MODELS name"

definition is_pretrained :: "string \<Rightarrow> bool" where
  "is_pretrained name = (map_of PRETRAINED_MODELS name \<noteq> None)"

subsection \<open>Loading a state\<close>

text \<open>\<open>_load_state\<close>. The model is mutated in place by the source; here the updated
  model is the result. \<open>if quantizer:\<close> is true for a quantizer object and false for
  \<open>None\<close>.\<close>

definition load_state :: "env \<Rightarrow> string \<Rightarrow> model \<Rightarrow> quantizer option \<Rightarrow> model run" where
  "load_state e name m quantizer =
     seq ([], get_url name) (\<lambda>url.
     seq ([EvDownload url], hub_load e url) (\<lambda>state.
     seq (set_state m quantizer state) (\<lambda>m'.
       case quantizer of
         Some q \<Rightarrow> detach q m'
       | None \<Rightarrow> ([], Inr m'))))"

subsection \<open>The builders\<close>

text \<open>The second definition of \<open>demucs_unittest\<close> (lines 179 to 195), the one bound to
  the name when the module has loaded.\<close>

definition demucs_unittest :: "env \<Rightarrow> bool \<Rightarrow> model run" where
  "demucs_unittest e pretrained =
     seq ([EvConstruct ArchDemucs 4], Inr (Demucs 4 SOURCES)) (\<lambda>m.
       if pretrained then load_state e ''demucs_unittest'' m None
       else ([], Inr m))"

text \<open>\<open>sum([extra, quantized, hq])\<close>: the number of flags that are set.\<close>

definition sum_flags :: "bool list \<Rightarrow> nat" where
  "sum_flags bs = length (filter (\<lambda>b. b) bs)"

definition demucs :: "env \<Rightarrow> bool \<Rightarrow> bool \<Rightarrow> bool \<Rightarrow> bool \<Rightarrow> int \<Rightarrow> model run" where
  "demucs e pretrained extra quantized hq channels =
     (if \<not> pretrained \<and> (extra \<or> quantized \<or> hq) then
        ([], Inl (ValueError ''if extra or quantized is True, pretrained must be True.''))
      else
        seq ([EvConstruct ArchDemucs channels], Inr (Demucs channels SOURCES)) (\<lambda>m.
          if pretrained then
            (let name0 = ''demucs'';
                 name1 = (if channels \<noteq> 64 then name0 @ str channels else name0)
             in
               if sum_flags [extra, quantized, hq] > 1 then
                 ([], Inl (ValueError ''Only one of extra, quantized, hq, can be True.''))
               else
                 seq (if quantized then
                        seq (DiffQuantizer m 8 1) (\<lambda>(q, mq).
                          ([], Inr (Some q, mq, name1 @ ''_quantized'')))
                      else ([], Inr (None, m, name1)))
                   (\<lambda>(quantizer, m2, name2).
                      (let name3 = (if extra then name2 @ ''_extra'' else name2);
                           name4 = (if hq then name3 @ ''_hq'' else name3)
                       in load_state e name4 m2 quantizer)))
          else ([], Inr m)))"

text \<open>The name that \<open>demucs\<close> has built when it calls \<open>_load_state\<close> (lines 223 to
  235), as a function of its arguments.\<close>

definition demucs_name :: "int \<Rightarrow> bool \<Rightarrow> bool \<Rightarrow> bool \<Rightarrow> string" where
  "demucs_name channels extra quantized hq =
     (let name0 = ''demucs'';
          name1 = (if channels \<noteq> 64 then name0 @ str channels else name0);
          name2 = (if quantized then name1 @ ''_quantized'' else name1);
          name3 = (if extra then name2 @ ''_extra'' else name2);
          name4 = (if hq then name3 @ ''_hq'' else name3)
      in name4)"

definition tasnet :: "env \<Rightarrow> bool \<Rightarrow> bool \<Rightarrow> model run" where
  "tasnet e pretrained extra =
     (if \<not> pretrained \<and> extra then
        ([], Inl (ValueError ''if extra is True, pretrained must be True.''))
      else
        seq ([EvConstruct ArchConvTasNet 10], Inr (ConvTasNet 10 SOURCES)) (\<lambda>m.
          if pretrained then
            (let name = (if extra then ''tasnet_extra'' else ''tasnet'')
             in load_state e name m None)
          else ([], Inr m)))"

definition load_pretrained :: "env \<Rightarrow> string \<Rightarrow> model run" where
  "load_pretrained e name =
     (if name = ''demucs'' then demucs e True False False False 64
      else if name = ''demucs48_hq'' then demucs e True False False True 48
      else if name = ''demucs_extra'' then demucs e True True False False 64
      else if name = ''demucs_quantized'' then demucs e True False True False 64
      else if name = ''demucs_unittest'' then demucs_unittest e True
      else if name = ''tasnet'' then tasnet e True False
      else if name = ''tasnet_extra'' then tasnet e True True
      else ([], Inl (ValueError (''Invalid pretrained name '' @ name))))"

subsection \<open>Resolving a name\<close>

text \<open>
  \<open>get_model\<close>. \<open>repo\<close> is \<open>None\<close> or a path. \<open>fatal\<close> (from \<open>Dora.log\<close>) does not
  return: it is the \<open>SystemExit\<close> outcome. The call \<open>demucs_unittest()\<close> reaches the
  second definition with its default \<open>pretrained=True\<close>.
\<close>

definition get_model :: "env \<Rightarrow> string \<Rightarrow> string option \<Rightarrow> model run" where
  "get_model e name repo =
     (if name = ''demucs_unittest'' then demucs_unittest e True
      else
        seq (case repo of
               None \<Rightarrow>
                 (case parse_remote_files (debug e) (files_txt e) of
                    Inl err \<Rightarrow> ([], Inl err)
                  | Inr models \<Rightarrow> ([], Inr (RemoteRepo models)))
             | Some dir \<Rightarrow>
                 if \<not> is_dir e dir then
                   ([], Inl (SystemExit (dir @ '' must exist and be a directory.'')))
                 else ([], Inr (LocalRepo dir)))
          (\<lambda>src.
             seq ([EvResolve name], any_repo_get_model e src name) (\<lambda>m.
               ([EvEval], Inr (eval_mode m)))))"

subsection \<open>The manifest by its lines\<close>

text \<open>
  The manifest is described by its lines: comments, root directives and entries; an
  entry's short name is the part before the first \<open>-\<close>; a root directive sets the path
  prefix for the lines after it. \<open>manifest_lines\<close> are the lines as they stand in the
  text; \<open>stripped_lines\<close> are the same lines with the whitespace at both ends removed.
  Both readings are compared with \<open>parse_remote_files\<close> below.
\<close>

definition manifest_lines :: "string \<Rightarrow> string list" where
  "manifest_lines text = split_on CHR 0x0A text"

definition stripped_lines :: "string \<Rightarrow> string list" where
  "stripped_lines text = map strip (manifest_lines text)"

definition is_comment :: "string \<Rightarrow> bool" where
  "is_comment l = startswith l ''#''"

definition is_root :: "string \<Rightarrow> bool" where
  "is_root l = (\<not> is_comment l \<and> startswith l ''root:'')"

definition is_entry :: "string \<Rightarrow> bool" where
  "is_entry l = (\<not> is_comment l \<and> \<not> startswith l ''root:'')"

definition short_name :: "string \<Rightarrow> string" where
  "short_name l = takeWhile (\<lambda>x. x \<noteq> CHR ''-'') l"

text \<open>The path of a root directive: the text after \<open>root:\<close>, stripped.\<close>

definition root_path :: "string \<Rightarrow> string" where
  "root_path l = strip (drop 5 l)"


text \<open>The entries of the lines \<open>ls\<close> in order, starting from the prefix \<open>r\<close>.\<close>

fun entries_from :: "string \<Rightarrow> string list \<Rightarrow> catalog" where
  "entries_from r [] = []"
| "entries_from r (l # ls) =
     (if is_comment l then entries_from r ls
      else if is_root l then entries_from (root_path l) ls
      else (short_name l, ROOT_URL @ r @ l) # entries_from r ls)"

subsection \<open>A sample environment\<close>

text \<open>
  An environment in which assertions run, every download succeeds, the manifest has one root directive
  and one entry, the directory \<open>models\<close> exists, and the remote repository resolves
  the names of its catalog.
\<close>

definition sample_env :: env where
  "sample_env =
     \<lparr>debug = True,
      hub_load = (\<lambda>url. Inr (''state of '' @ url)),
      files_txt = ''root: mdx/\<newline>abcd1234-v1.th'',
      is_dir = (\<lambda>d. d = ''models''),
      any_repo_get_model = (\<lambda>src name.
        case src of
          RemoteRepo models \<Rightarrow>
            (case map_of models name of
               None \<Rightarrow> Inl (ModelLoadingError name)
             | Some url \<Rightarrow> Inr ((HDemucs 48 SOURCES)\<lparr>weights := Some (''state of '' @ url)\<rparr>))
        | LocalRepo d \<Rightarrow> Inl (ModelLoadingError name))\<rparr>"

definition is_construct :: "event \<Rightarrow> bool" where
  "is_construct ev = (case ev of EvConstruct a c \<Rightarrow> True | _ \<Rightarrow> False)"

section \<open>Properties\<close>

subsection \<open>The catalog parser against the manifest's lines\<close>

lemma split1_root:
  "startswith l ''root:'' \<Longrightarrow> split1 CHR '':'' l = [''root'', drop 5 l]"
proof -
  assume "startswith l ''root:''"
  then have "take (length ''root:'') l = ''root:''" by (simp only: startswith_def)
  then have "l = ''root:'' @ drop (length ''root:'') l" by (metis append_take_drop_id)
  then have "l = ''root:'' @ drop 5 l" by (simp add: eval_nat_numeral)
  then obtain t where l: "l = ''root:'' @ t" and t: "t = drop 5 l" by blast
  show ?thesis unfolding t[symmetric] by (subst l) (simp add: split1_def)
qed

lemma split1_dash: "\<exists>ws. split1 CHR ''-'' l = short_name l # ws"
proof (cases "dropWhile (\<lambda>x. x \<noteq> CHR ''-'') l")
  case Nil
  then have tw: "takeWhile (\<lambda>x. x \<noteq> CHR ''-'') l = l"
    by (metis takeWhile_dropWhile_id append_Nil2)
  have sp: "split1 CHR ''-'' l = [l]" unfolding split1_def Nil by simp
  show ?thesis unfolding short_name_def tw sp by blast
next
  case (Cons y ys)
  show ?thesis unfolding split1_def short_name_def Cons by simp
qed

lemma map_of_None_iff: "(map_of ms k = None) = (k \<notin> set (map fst ms))"
  by (simp add: map_of_eq_None_iff)

lemma dict_set_new: "k \<notin> set (map fst ms) \<Longrightarrow> dict_set ms k v = ms @ [(k, v)]"
  by (simp add: dict_set_def map_of_None_iff)


lemma parse_lines_entries:
  "distinct (map fst ms) \<Longrightarrow>
   parse_lines True r ms raws =
     (if distinct (map fst (ms @ entries_from r (map strip raws)))
      then Inr (ms @ entries_from r (map strip raws)) else Inl AssertionError)"
proof (induction raws arbitrary: r ms)
  case Nil
  then show ?case by simp
next
  case (Cons raw rest)
  let ?l = "strip raw"
  show ?case
  proof (cases "startswith ?l ''#''")
    case True
    then show ?thesis using Cons by (simp add: Let_def is_comment_def)
  next
    case notc: False
    show ?thesis
    proof (cases "startswith ?l ''root:''")
      case True
      then show ?thesis using Cons notc
        by (simp add: Let_def is_comment_def is_root_def split1_root root_path_def)
    next
      case False
      obtain ws where ws: "split1 CHR ''-'' ?l = short_name ?l # ws"
        using split1_dash by blast
      show ?thesis
      proof (cases "short_name ?l \<in> set (map fst ms)")
        case True
        then show ?thesis using notc False ws
          by (simp add: Let_def is_comment_def is_root_def map_of_None_iff)
      next
        case nin: False
        have d: "distinct (map fst (ms @ [(short_name ?l, ROOT_URL @ r @ ?l)]))"
          using Cons.prems nin by simp
        show ?thesis using notc False ws nin Cons.IH[OF d]
          by (simp add: Let_def is_comment_def is_root_def map_of_None_iff dict_set_new)
      qed
    qed
  qed
qed

lemma entries_from_keys:
  "map fst (entries_from r ls) = map short_name (filter is_entry ls)"
  by (induction ls arbitrary: r) (auto simp: is_entry_def is_root_def)


lemma parse_remote_files_eq:
  "parse_remote_files True text =
     (if distinct (map short_name (filter is_entry (stripped_lines text)))
      then Inr (entries_from [] (stripped_lines text)) else Inl AssertionError)"
  using parse_lines_entries[of "[]" "[]" "split_on CHR 0x0A text"]
  by (simp add: parse_remote_files_def stripped_lines_def manifest_lines_def entries_from_keys)


lemma duplicate_not_distinct:
  assumes "i < j" "j < length ls" "P (ls ! i)" "P (ls ! j)" "f (ls ! i) = f (ls ! j)"
  shows "\<not> distinct (map f (filter P ls))"
proof -
  have split: "ls = take j ls @ ls ! j # drop (Suc j) ls"
    using assms(2) by (rule id_take_nth_drop)
  have "take j ls ! i = ls ! i" using assms(1) by simp
  moreover have "i < length (take j ls)" using assms(1,2) by simp
  ultimately have "ls ! i \<in> set (take j ls)" by (metis nth_mem)
  then have "f (ls ! i) \<in> set (map f (filter P (take j ls)))"
    using assms(3) by simp
  then have "f (ls ! j) \<in> set (map f (filter P (take j ls)))"
    using assms(5) by simp
  moreover have "map f (filter P ls) =
      map f (filter P (take j ls)) @ f (ls ! j) # map f (filter P (drop (Suc j) ls))"
    using assms(4) by (subst split) simp
  ultimately show ?thesis by simp
qed







text \<open>
  C7 (as amended). With assertions running (the interpreter's default; \<open>python -O\<close>
  turns them off), when two different lines of the manifest are, once stripped, entries
  with the same short name, the parser does not return a catalog: the \<open>assert\<close> fails.
\<close>

theorem parse_remote_files_duplicate:
  "i < j \<Longrightarrow> j < length (stripped_lines text) \<Longrightarrow>
   is_entry (stripped_lines text ! i) \<Longrightarrow> is_entry (stripped_lines text ! j) \<Longrightarrow>
   short_name (stripped_lines text ! i) = short_name (stripped_lines text ! j) \<Longrightarrow>
   parse_remote_files True text = Inl AssertionError"
  using duplicate_not_distinct[of i j "stripped_lines text" is_entry short_name]
  by (simp add: parse_remote_files_eq)

theorem parse_remote_files_duplicate_witness:
  "(0::nat) < 1 \<and> 1 < length (stripped_lines ''ab-1.th\<newline>ab-2.th'')
   \<and> is_entry (stripped_lines ''ab-1.th\<newline>ab-2.th'' ! 0)
   \<and> is_entry (stripped_lines ''ab-1.th\<newline>ab-2.th'' ! 1)
   \<and> short_name (stripped_lines ''ab-1.th\<newline>ab-2.th'' ! 0) =
       short_name (stripped_lines ''ab-1.th\<newline>ab-2.th'' ! 1)
   \<and> parse_remote_files True ''ab-1.th\<newline>ab-2.th'' = Inl AssertionError"
proof -
  let ?t = "''ab-1.th\<newline>ab-2.th''"
  have ls: "stripped_lines ?t = [''ab-1.th'', ''ab-2.th'']"
    by (simp add: stripped_lines_def manifest_lines_def strip_def is_space_def)
  have e1: "is_entry ''ab-1.th''" and e2: "is_entry ''ab-2.th''"
    by (simp_all add: is_entry_def is_comment_def startswith_def)
  have s: "short_name ''ab-1.th'' = short_name ''ab-2.th''"
    by (simp add: short_name_def)
  have h1: "(0::nat) < 1" by simp
  have h2: "1 < length (stripped_lines ?t)" unfolding ls by simp
  have h3: "is_entry (stripped_lines ?t ! 0)" unfolding ls using e1 by simp
  have h4: "is_entry (stripped_lines ?t ! 1)" unfolding ls using e2 by simp
  have h5: "short_name (stripped_lines ?t ! 0) = short_name (stripped_lines ?t ! 1)"
    unfolding ls using s by simp
  show ?thesis using h1 h2 h3 h4 h5 parse_remote_files_duplicate[OF h1 h2 h3 h4 h5]
    by blast
qed

text \<open>
  C7 as stated does not hold. With assertions turned off, the manifest with the lines
  \<open>ab-1.th\<close> and \<open>ab-2.th\<close> is parsed to a catalog with the one key \<open>ab\<close>, whose
  value is that of the second line: the first entry is overwritten without an error.
  And with assertions running, the two lines \<open>ab \<close> (with a space at its end) and
  \<open>ab -x\<close> are entries whose parts before the first \<open>-\<close> are the same as they stand,
  yet a catalog of two entries is returned, because the short names are taken after
  stripping.
\<close>

theorem duplicate_not_always_rejected:
  "parse_remote_files False ''ab-1.th\<newline>ab-2.th'' = Inr [(''ab'', ROOT_URL @ ''ab-2.th'')]
   \<and> manifest_lines ''ab \<newline>ab -x'' = [''ab '', ''ab -x'']
   \<and> is_entry ''ab '' \<and> is_entry ''ab -x''
   \<and> short_name ''ab '' = short_name ''ab -x''
   \<and> parse_remote_files True ''ab \<newline>ab -x'' =
        Inr [(''ab'', ROOT_URL @ ''ab''), (''ab '', ROOT_URL @ ''ab -x'')]"
  by (simp add: parse_remote_files_def manifest_lines_def strip_def is_space_def
      startswith_def split1_def dict_set_def is_entry_def is_comment_def short_name_def
      Let_def)

subsection \<open>Runs of the legacy builders\<close>

lemma seq_Inl [simp]: "seq (evs, Inl err) f = (evs, Inl err)"
  by (simp add: seq_def)

lemma seq_Inr [simp]: "seq (evs, Inr x) f = (evs @ fst (f x), snd (f x))"
  by (simp add: seq_def split: prod.splits)

lemma map_of_table:
  "map_of PRETRAINED_MODELS ''demucs'' = Some ''e07c671f''"
  "map_of PRETRAINED_MODELS ''demucs48_hq'' = Some ''28a1282c''"
  "map_of PRETRAINED_MODELS ''demucs_extra'' = Some ''3646af93''"
  "map_of PRETRAINED_MODELS ''demucs_quantized'' = Some ''07afea75''"
  "map_of PRETRAINED_MODELS ''tasnet'' = Some ''beb46fac''"
  "map_of PRETRAINED_MODELS ''tasnet_extra'' = Some ''df3777b2''"
  "map_of PRETRAINED_MODELS ''demucs_unittest'' = Some ''09ebc15f''"
  by (simp_all add: PRETRAINED_MODELS_def)

lemma load_state_known:
  "map_of PRETRAINED_MODELS name = Some sig \<Longrightarrow>
   load_state e name m q =
     (case hub_load e (ROOT @ name @ ''-'' @ take 8 sig @ ''.th'') of
        Inl err \<Rightarrow> ([EvDownload (ROOT @ name @ ''-'' @ take 8 sig @ ''.th'')], Inl err)
      | Inr st \<Rightarrow>
          ([EvDownload (ROOT @ name @ ''-'' @ take 8 sig @ ''.th''), EvSetState m q st]
             @ (case q of Some qq \<Rightarrow> [EvDetach qq] | None \<Rightarrow> []),
           Inr (case q of
                  Some qq \<Rightarrow> m\<lparr>weights := Some st, hooks := False\<rparr>
                | None \<Rightarrow> m\<lparr>weights := Some st\<rparr>)))"
  by (simp add: load_state_def get_url_def get_url_in_def set_state_def detach_def
      split: sum.splits option.splits)

lemma load_state_unknown:
  "map_of PRETRAINED_MODELS name = None \<Longrightarrow>
   load_state e name m q = ([], Inl (KeyError name))"
  by (simp add: load_state_def get_url_def get_url_in_def)

lemma load_state_no_construct:
  "filter is_construct (fst (load_state e name m q)) = []"
proof (cases "get_url name")
  case (Inl err)
  then show ?thesis by (simp add: load_state_def)
next
  case url: (Inr url)
  show ?thesis
  proof (cases "hub_load e url")
    case (Inl err)
    then show ?thesis using url by (simp add: load_state_def is_construct_def)
  next
    case (Inr st)
    then show ?thesis using url
      by (simp add: load_state_def is_construct_def set_state_def detach_def
          split: option.splits)
  qed
qed

lemma sample_hub: "hub_load sample_env url = Inr (''state of '' @ url)"
  by (simp add: sample_env_def)

text \<open>
  C1. \<open>get_model("demucs_unittest", repo)\<close> runs the second definition of
  \<open>demucs_unittest\<close> with \<open>pretrained=True\<close>: it builds a \<open>Demucs\<close> with 4 channels,
  asks the hub for \<open>demucs_unittest-09ebc15f.th\<close> and, when the download succeeds,
  applies the state, so the model returned has weights loaded. The first definition,
  which builds an \<open>HDemucs\<close> and loads nothing, is never the one that runs.
\<close>

theorem get_model_unittest_downloads:
  "get_model e ''demucs_unittest'' repo =
     (case hub_load e (ROOT @ ''demucs_unittest-09ebc15f.th'') of
        Inl err \<Rightarrow>
          ([EvConstruct ArchDemucs 4, EvDownload (ROOT @ ''demucs_unittest-09ebc15f.th'')],
           Inl err)
      | Inr st \<Rightarrow>
          ([EvConstruct ArchDemucs 4, EvDownload (ROOT @ ''demucs_unittest-09ebc15f.th''),
            EvSetState (Demucs 4 SOURCES) None st],
           Inr ((Demucs 4 SOURCES)\<lparr>weights := Some st\<rparr>)))
   \<and> demucs_unittest_first = ([EvConstruct ArchHDemucs 4], Inr (HDemucs 4 SOURCES))"
  by (simp add: get_model_def demucs_unittest_def load_state_known[OF map_of_table(7)]
      demucs_unittest_first_def split: sum.splits)

text \<open>
  C5 (as amended). With \<open>pretrained=True\<close> and at least two of \<open>extra\<close>, \<open>quantized\<close>,
  \<open>hq\<close> set, \<open>demucs\<close> raises \<open>ValueError\<close>. The \<open>Demucs\<close> model has been constructed
  by then; no quantizer is built, no URL is looked up, nothing is downloaded and no
  state is applied.
\<close>

theorem demucs_two_flags:
  "2 \<le> sum_flags [extra, quantized, hq] \<Longrightarrow>
   demucs e True extra quantized hq channels =
     ([EvConstruct ArchDemucs channels],
      Inl (ValueError ''Only one of extra, quantized, hq, can be True.''))"
  by (simp add: demucs_def sum_flags_def Let_def split: if_splits)

theorem demucs_two_flags_witness:
  "2 \<le> sum_flags [True, True, False]
   \<and> demucs sample_env True True True False 64 =
       ([EvConstruct ArchDemucs 64],
        Inl (ValueError ''Only one of extra, quantized, hq, can be True.''))"
proof -
  have h: "2 \<le> sum_flags [True, True, False]" by (simp add: sum_flags_def)
  show ?thesis using h demucs_two_flags[OF h, of sample_env 64] by blast
qed

text \<open>
  The claim C5 as stated fails: for \<open>demucs(quantized=True, hq=True)\<close> the error is
  raised after the model has been constructed, not before.
\<close>

theorem construction_precedes_flag_error:
  "demucs sample_env True False True True 64 =
     ([EvConstruct ArchDemucs 64],
      Inl (ValueError ''Only one of extra, quantized, hq, can be True.''))
   \<and> filter is_construct (fst (demucs sample_env True False True True 64)) \<noteq> []"
  by (simp add: demucs_def sum_flags_def is_construct_def)

text \<open>
  C6. \<open>demucs(pretrained=False, ...)\<close> with any of \<open>extra\<close>, \<open>quantized\<close>, \<open>hq\<close> set,
  and \<open>tasnet(pretrained=False, extra=True)\<close>, raise \<open>ValueError\<close> with no event at
  all before it: no construction, no download, no state load.
\<close>

theorem builders_not_pretrained:
  "(extra \<or> quantized \<or> hq \<longrightarrow>
      demucs e False extra quantized hq channels =
        ([], Inl (ValueError ''if extra or quantized is True, pretrained must be True.'')))
   \<and> tasnet e False True =
        ([], Inl (ValueError ''if extra is True, pretrained must be True.''))"
  by (simp add: demucs_def tasnet_def)

theorem builders_not_pretrained_witness:
  "(True \<or> False \<or> False)
   \<and> demucs sample_env False True False False 64 =
        ([], Inl (ValueError ''if extra or quantized is True, pretrained must be True.''))
   \<and> tasnet sample_env False True =
        ([], Inl (ValueError ''if extra is True, pretrained must be True.''))"
  using builders_not_pretrained[of True False False sample_env 64] by simp

text \<open>
  C8. \<open>demucs(pretrained=True, quantized=True)\<close> builds the model, then builds the
  quantizer around that model with \<open>group_size=8\<close> and \<open>min_size=1\<close>, which puts the
  quantizer's hooks on the model, and only then downloads
  \<open>demucs_quantized-07afea75.th\<close>. When the download succeeds, \<open>set_state\<close> is called
  with the hooked model, that quantizer and the downloaded state, and afterwards that
  quantizer is detached, so a model that is returned has its weights and no hooks.
\<close>

theorem demucs_quantized_run:
  "demucs e True False True False 64 =
     (case hub_load e (ROOT @ ''demucs_quantized-07afea75.th'') of
        Inl err \<Rightarrow>
          ([EvConstruct ArchDemucs 64, EvQuantizer (Demucs 64 SOURCES) 8 1,
            EvDownload (ROOT @ ''demucs_quantized-07afea75.th'')], Inl err)
      | Inr st \<Rightarrow>
          ([EvConstruct ArchDemucs 64, EvQuantizer (Demucs 64 SOURCES) 8 1,
            EvDownload (ROOT @ ''demucs_quantized-07afea75.th''),
            EvSetState ((Demucs 64 SOURCES)\<lparr>hooks := True\<rparr>)
              (Some \<lparr>group_size = 8, min_size = 1\<rparr>) st,
            EvDetach \<lparr>group_size = 8, min_size = 1\<rparr>],
           Inr ((Demucs 64 SOURCES)\<lparr>weights := Some st\<rparr>)))
   \<and> hooks ((Demucs 64 SOURCES)\<lparr>hooks := True\<rparr>)
   \<and> (\<forall>m. snd (demucs e True False True False 64) = Inr m \<longrightarrow>
          \<not> hooks m \<and> weights m \<noteq> None)"
proof -
  have run: "demucs e True False True False 64 =
     (case hub_load e (ROOT @ ''demucs_quantized-07afea75.th'') of
        Inl err \<Rightarrow>
          ([EvConstruct ArchDemucs 64, EvQuantizer (Demucs 64 SOURCES) 8 1,
            EvDownload (ROOT @ ''demucs_quantized-07afea75.th'')], Inl err)
      | Inr st \<Rightarrow>
          ([EvConstruct ArchDemucs 64, EvQuantizer (Demucs 64 SOURCES) 8 1,
            EvDownload (ROOT @ ''demucs_quantized-07afea75.th''),
            EvSetState ((Demucs 64 SOURCES)\<lparr>hooks := True\<rparr>)
              (Some \<lparr>group_size = 8, min_size = 1\<rparr>) st,
            EvDetach \<lparr>group_size = 8, min_size = 1\<rparr>],
           Inr ((Demucs 64 SOURCES)\<lparr>weights := Some st\<rparr>)))"
    by (simp add: demucs_def sum_flags_def DiffQuantizer_def
        load_state_known[OF map_of_table(4)] Demucs_def
        split: sum.splits)
  have "\<not> hooks m \<and> weights m \<noteq> None"
    if "snd (demucs e True False True False 64) = Inr m" for m
    using that unfolding run by (auto simp: Demucs_def split: sum.splits)
  then show ?thesis using run by simp
qed

theorem demucs_quantized_run_witness:
  "demucs sample_env True False True False 64 =
     ([EvConstruct ArchDemucs 64, EvQuantizer (Demucs 64 SOURCES) 8 1,
       EvDownload (ROOT @ ''demucs_quantized-07afea75.th''),
       EvSetState ((Demucs 64 SOURCES)\<lparr>hooks := True\<rparr>)
         (Some \<lparr>group_size = 8, min_size = 1\<rparr>)
         (''state of '' @ ROOT @ ''demucs_quantized-07afea75.th''),
       EvDetach \<lparr>group_size = 8, min_size = 1\<rparr>],
      Inr ((Demucs 64 SOURCES)
             \<lparr>weights := Some (''state of '' @ ROOT @ ''demucs_quantized-07afea75.th'')\<rparr>))
   \<and> \<not> hooks ((Demucs 64 SOURCES)
             \<lparr>weights := Some (''state of '' @ ROOT @ ''demucs_quantized-07afea75.th'')\<rparr>)"
proof -
  note th = demucs_quantized_run[of sample_env]
  from th have run: "demucs sample_env True False True False 64 =
     ([EvConstruct ArchDemucs 64, EvQuantizer (Demucs 64 SOURCES) 8 1,
       EvDownload (ROOT @ ''demucs_quantized-07afea75.th''),
       EvSetState ((Demucs 64 SOURCES)\<lparr>hooks := True\<rparr>)
         (Some \<lparr>group_size = 8, min_size = 1\<rparr>)
         (''state of '' @ ROOT @ ''demucs_quantized-07afea75.th''),
       EvDetach \<lparr>group_size = 8, min_size = 1\<rparr>],
      Inr ((Demucs 64 SOURCES)
             \<lparr>weights := Some (''state of '' @ ROOT @ ''demucs_quantized-07afea75.th'')\<rparr>))"
    by (simp add: sample_hub)
  then have "snd (demucs sample_env True False True False 64) =
      Inr ((Demucs 64 SOURCES)
             \<lparr>weights := Some (''state of '' @ ROOT @ ''demucs_quantized-07afea75.th'')\<rparr>)"
    by simp
  with th have "\<not> hooks ((Demucs 64 SOURCES)
             \<lparr>weights := Some (''state of '' @ ROOT @ ''demucs_quantized-07afea75.th'')\<rparr>)"
    by blast
  with run show ?thesis by blast
qed

text \<open>
  C4. For a name of the table with signature \<open>S\<close>, \<open>get_url\<close> is the string \<open>ROOT\<close>,
  the name, \<open>-\<close>, the first 8 characters of \<open>S\<close>, \<open>.th\<close>: a function of the name and
  the table alone (no environment, no channel count). A signature of fewer than 8
  characters is not rejected: \<open>sig[:8]\<close> is then the whole signature.
\<close>

theorem get_url_shape:
  "(map_of table name = Some S \<longrightarrow>
      get_url_in table name = Inr (ROOT @ name @ ''-'' @ take 8 S @ ''.th'')
      \<and> (length S \<le> 8 \<longrightarrow> get_url_in table name = Inr (ROOT @ name @ ''-'' @ S @ ''.th'')))
   \<and> (map_of PRETRAINED_MODELS name = Some S \<longrightarrow>
        get_url name = Inr (ROOT @ name @ ''-'' @ take 8 S @ ''.th''))"
  by (simp add: get_url_def get_url_in_def)

theorem get_url_shape_witness:
  "map_of [(''tiny'', ''abc'')] ''tiny'' = Some ''abc''
   \<and> get_url_in [(''tiny'', ''abc'')] ''tiny'' = Inr (ROOT @ ''tiny'' @ ''-'' @ ''abc'' @ ''.th'')
   \<and> map_of PRETRAINED_MODELS ''demucs48_hq'' = Some ''28a1282c''
   \<and> get_url ''demucs48_hq'' = Inr (ROOT @ ''demucs48_hq'' @ ''-'' @ ''28a1282c'' @ ''.th'')"
proof -
  have a: "map_of [(''tiny'', ''abc'')] ''tiny'' = Some ''abc''" by simp
  have b: "map_of PRETRAINED_MODELS ''demucs48_hq'' = Some ''28a1282c''"
    by (rule map_of_table(2))
  have "get_url_in [(''tiny'', ''abc'')] ''tiny'' = Inr (ROOT @ ''tiny'' @ ''-'' @ ''abc'' @ ''.th'')"
    using get_url_shape[of "[(''tiny'', ''abc'')]" "''tiny''" "''abc''"] a by simp
  moreover have "get_url ''demucs48_hq'' =
      Inr (ROOT @ ''demucs48_hq'' @ ''-'' @ ''28a1282c'' @ ''.th'')"
    using get_url_shape[of "[]" "''demucs48_hq''" "''28a1282c''"] b by simp
  ultimately show ?thesis using a b by blast
qed

subsection \<open>Evaluation mode\<close>

lemma get_model_other:
  "name \<noteq> ''demucs_unittest'' \<Longrightarrow> get_model e name repo = (evs, Inr m) \<Longrightarrow>
   \<not> training m \<and> evs \<noteq> [] \<and> last evs = EvEval"
  by (auto simp: get_model_def seq_def eval_mode_def
      split: option.splits sum.splits if_splits prod.splits)

text \<open>
  C2 (as amended). For every name other than \<open>demucs_unittest\<close>, a model that
  \<open>get_model\<close> returns has had \<open>eval()\<close> called on it as the last step of the run and is
  not in training mode. For \<open>demucs_unittest\<close>, \<open>get_model\<close> returns what
  \<open>demucs_unittest()\<close> built, and \<open>eval()\<close> is not called.
\<close>

theorem get_model_eval:
  "(name \<noteq> ''demucs_unittest'' \<and> get_model e name repo = (evs, Inr m) \<longrightarrow>
      \<not> training m \<and> evs \<noteq> [] \<and> last evs = EvEval)
   \<and> get_model e ''demucs_unittest'' repo = demucs_unittest e True
   \<and> EvEval \<notin> set (fst (get_model e ''demucs_unittest'' repo))"
proof (intro conjI impI)
  assume "name \<noteq> ''demucs_unittest'' \<and> get_model e name repo = (evs, Inr m)"
  then show "\<not> training m" "evs \<noteq> []" "last evs = EvEval"
    using get_model_other[of name e repo evs m] by blast+
next
  show "get_model e ''demucs_unittest'' repo = demucs_unittest e True"
    by (simp add: get_model_def)
next
  show "EvEval \<notin> set (fst (get_model e ''demucs_unittest'' repo))"
    by (simp add: get_model_def demucs_unittest_def load_state_known[OF map_of_table(7)]
        split: sum.splits)
qed

lemma sample_catalog:
  "parse_remote_files (debug sample_env) (files_txt sample_env) =
     Inr [(''abcd1234'', ROOT_URL @ ''mdx/abcd1234-v1.th'')]"
  by (simp add: sample_env_def parse_remote_files_def strip_def is_space_def startswith_def
      split1_def dict_set_def)

lemma sample_get_model:
  "get_model sample_env ''abcd1234'' None =
     ([EvResolve ''abcd1234'', EvEval],
      Inr ((HDemucs 48 SOURCES)
             \<lparr>weights := Some (''state of '' @ ROOT_URL @ ''mdx/abcd1234-v1.th''),
              training := False\<rparr>))"
proof -
  have r: "any_repo_get_model sample_env
             (RemoteRepo [(''abcd1234'', ROOT_URL @ ''mdx/abcd1234-v1.th'')]) ''abcd1234'' =
           Inr ((HDemucs 48 SOURCES)
                  \<lparr>weights := Some (''state of '' @ ROOT_URL @ ''mdx/abcd1234-v1.th'')\<rparr>)"
    by (simp add: sample_env_def)
  have n: "''abcd1234'' \<noteq> ''demucs_unittest''" by simp
  show ?thesis unfolding get_model_def using n
    by (simp add: sample_catalog r eval_mode_def)
qed

theorem get_model_eval_witness:
  "''abcd1234'' \<noteq> ''demucs_unittest''
   \<and> get_model sample_env ''abcd1234'' None =
       ([EvResolve ''abcd1234'', EvEval],
        Inr ((HDemucs 48 SOURCES)
               \<lparr>weights := Some (''state of '' @ ROOT_URL @ ''mdx/abcd1234-v1.th''),
                training := False\<rparr>))
   \<and> \<not> training ((HDemucs 48 SOURCES)
               \<lparr>weights := Some (''state of '' @ ROOT_URL @ ''mdx/abcd1234-v1.th''),
                training := False\<rparr>)
   \<and> last [EvResolve ''abcd1234'', EvEval] = EvEval"
proof -
  have n: "''abcd1234'' \<noteq> ''demucs_unittest''" by simp
  note th = get_model_eval[of "''abcd1234''" sample_env None
      "[EvResolve ''abcd1234'', EvEval]"
      "(HDemucs 48 SOURCES)
         \<lparr>weights := Some (''state of '' @ ROOT_URL @ ''mdx/abcd1234-v1.th''),
          training := False\<rparr>"]
  from th n sample_get_model
  have "\<not> training ((HDemucs 48 SOURCES)
               \<lparr>weights := Some (''state of '' @ ROOT_URL @ ''mdx/abcd1234-v1.th''),
                training := False\<rparr>)
        \<and> last [EvResolve ''abcd1234'', EvEval] = EvEval"
    by blast
  then show ?thesis using n sample_get_model by blast
qed

text \<open>
  The claim C2 as stated fails on the fast path: with a download that succeeds,
  \<open>get_model("demucs_unittest")\<close> returns a model that is still in training mode, and no
  \<open>eval()\<close> call is part of the run.
\<close>

theorem get_model_unittest_training:
  "snd (get_model sample_env ''demucs_unittest'' None) =
     Inr ((Demucs 4 SOURCES)
            \<lparr>weights := Some (''state of '' @ ROOT @ ''demucs_unittest-09ebc15f.th'')\<rparr>)
   \<and> training ((Demucs 4 SOURCES)
            \<lparr>weights := Some (''state of '' @ ROOT @ ''demucs_unittest-09ebc15f.th'')\<rparr>)
   \<and> EvEval \<notin> set (fst (get_model sample_env ''demucs_unittest'' None))"
  by (simp add: get_model_def demucs_unittest_def load_state_known[OF map_of_table(7)]
      sample_hub Demucs_def)

subsection \<open>Decimal strings\<close>


lemma digit_in: "n < 10 \<Longrightarrow> ''0123456789'' ! n \<in> set ''0123456789''"
  by (rule nth_mem) simp

lemma str_nat_chars: "set (str_nat n) \<subseteq> set ''0123456789''"
proof (induction n rule: str_nat.induct)
  case (1 n)
  show ?case
  proof (cases "n < 10")
    case True
    have "str_nat n = [''0123456789'' ! n]" using True by (subst str_nat.simps) simp
    then have "set (str_nat n) = {''0123456789'' ! n}" by (simp only: list.set)
    then show ?thesis using digit_in[OF True] by (metis empty_subsetI insert_subset)
  next
    case False
    have m: "n mod 10 < 10" by simp
    have e: "str_nat n = str_nat (n div 10) @ [''0123456789'' ! (n mod 10)]"
      using False by (subst str_nat.simps) simp
    have s: "set (str_nat n) = set (str_nat (n div 10)) \<union> {''0123456789'' ! (n mod 10)}"
      unfolding e by (simp only: set_append list.set)
    have "set (str_nat (n div 10)) \<subseteq> set ''0123456789''" using 1 False by blast
    then show ?thesis using digit_in[OF m] unfolding s by (metis Un_least empty_subsetI insert_subset)
  qed
qed


lemma str_nat_nonempty: "str_nat n \<noteq> []"
  by (subst str_nat.simps) simp

lemma digit_inj:
  assumes "a < 10" "b < 10" "''0123456789'' ! a = ''0123456789'' ! b"
  shows "a = b"
proof -
  have d: "distinct ''0123456789''" by simp
  have l: "length ''0123456789'' = 10" by simp
  show ?thesis using assms nth_eq_iff_index_eq[OF d, of a b] unfolding l by blast
qed

lemma str_nat_small: "n < 10 \<Longrightarrow> str_nat n = [''0123456789'' ! n]"
  by (subst str_nat.simps) simp

lemma str_nat_big:
  "\<not> n < 10 \<Longrightarrow> str_nat n = str_nat (n div 10) @ [''0123456789'' ! (n mod 10)]"
  by (subst str_nat.simps) simp

lemma str_nat_single:
  assumes "str_nat n = [''0123456789'' ! d]" "d < 10"
  shows "n = d"
proof (cases "n < 10")
  case True
  then have "''0123456789'' ! n = ''0123456789'' ! d"
    using assms(1) str_nat_small[OF True] by (simp only: list.inject)
  then show ?thesis using digit_inj[OF True assms(2)] by blast
next
  case False
  have "str_nat (n div 10) @ [''0123456789'' ! (n mod 10)] = [] @ [''0123456789'' ! d]"
    using assms(1) str_nat_big[OF False] by (simp only: append_Nil)
  then have "str_nat (n div 10) = []" by (simp only: append1_eq_conv)
  then show ?thesis using str_nat_nonempty by blast
qed


lemma str_nat_48:
  assumes "str_nat n = ''48''"
  shows "n = 48"
proof (cases "n < 10")
  case True
  have "length (str_nat n) = 1" using str_nat_small[OF True] by simp
  moreover have "length (str_nat n) = 2" unfolding assms by simp
  ultimately show ?thesis by simp
next
  case False
  have d4: "''0123456789'' ! (4::nat) = CHR ''4''" by simp
  have d8: "''0123456789'' ! (8::nat) = CHR ''8''" by simp
  have "str_nat (n div 10) @ [''0123456789'' ! (n mod 10)] = ''4'' @ [CHR ''8'']"
    using assms str_nat_big[OF False] by simp
  then have h: "str_nat (n div 10) = ''4''" and l: "''0123456789'' ! (n mod 10) = CHR ''8''"
    by (simp_all only: append1_eq_conv)
  have "str_nat (n div 10) = [''0123456789'' ! (4::nat)]" unfolding d4 by (rule h)
  then have "n div 10 = 4" by (rule str_nat_single) simp
  moreover have "''0123456789'' ! (n mod 10) = ''0123456789'' ! (8::nat)"
    unfolding d8 by (rule l)
  then have "n mod 10 = 8" using digit_inj[of "n mod 10" 8] by simp
  ultimately show ?thesis by presburger
qed

lemma str_48: "(str c = ''48'') = (c = 48)"
proof
  assume a: "str c = ''48''"
  show "c = 48"
  proof (cases "c < 0")
    case True
    then show ?thesis using a by (simp add: str_def)
  next
    case False
    then have "str_nat (nat c) = ''48''" using a by (simp add: str_def)
    then have "nat c = 48" by (rule str_nat_48)
    then show ?thesis using False by simp
  qed
next
  assume "c = 48"
  then show "str c = ''48''"
    by (simp add: str_def str_nat.simps[of 48] str_nat.simps[of 4])
qed

lemma str_nonempty: "str c \<noteq> []"
  by (simp add: str_def str_nat_nonempty)

lemma str_hd: "\<exists>x xs. str c = x # xs \<and> x \<in> set ''-0123456789''"
proof (cases "c < 0")
  case True
  then show ?thesis by (simp add: str_def)
next
  case False
  obtain x xs where x: "str_nat (nat c) = x # xs"
    using str_nat_nonempty[of "nat c"] by (cases "str_nat (nat c)") blast+
  have "x \<in> set (str_nat (nat c))" unfolding x by simp
  then have "x \<in> set ''0123456789''" using str_nat_chars by blast
  then have "x \<in> set ''-0123456789''" by (simp only: list.set) blast
  then show ?thesis using False x by (simp only: str_def if_False) blast
qed

lemma str_no_underscore: "CHR ''_'' \<notin> set (str c)"
proof -
  have "CHR ''_'' \<notin> set ''0123456789''" by simp
  then have n: "CHR ''_'' \<notin> set (str_nat k)" for k using str_nat_chars[of k] by blast
  show ?thesis using n[of "nat c"] n[of "nat (- c)"] by (simp add: str_def)
qed


lemma str_append_underscore: "str c @ s \<noteq> CHR ''_'' # t"
proof
  assume a: "str c @ s = CHR ''_'' # t"
  obtain x xs where x: "str c = x # xs" and m: "x \<in> set ''-0123456789''"
    using str_hd by blast
  have "x = CHR ''_''" using a unfolding x by simp
  then show False using m by simp
qed

subsection \<open>Names outside the table\<close>

lemma is_pretrained_keys:
  "is_pretrained n =
     (n = ''demucs'' \<or> n = ''demucs48_hq'' \<or> n = ''demucs_extra'' \<or> n = ''demucs_quantized''
      \<or> n = ''tasnet'' \<or> n = ''tasnet_extra'' \<or> n = ''demucs_unittest'')"
  by (simp add: is_pretrained_def PRETRAINED_MODELS_def)

lemma str_longer: "str c @ s = k \<Longrightarrow> length s < length k"
proof -
  assume "str c @ s = k"
  then have "length k = length (str c) + length s" by (metis length_append)
  moreover have "0 < length (str c)" using str_nonempty by simp
  ultimately show ?thesis by simp
qed

lemma name_plain: "\<not> is_pretrained (''demucs'' @ str c)"
proof -
  have a: "str c \<noteq> ''48_hq''" using str_no_underscore[of c] by (metis list.set_intros)
  have b: "str c \<noteq> CHR ''_'' # t" for t using str_append_underscore[of c "[]" t] by simp
  show ?thesis using a b str_nonempty[of c] by (simp add: is_pretrained_keys)
qed

lemma name_quantized: "\<not> is_pretrained (''demucs'' @ str c @ ''_quantized'')"
proof -
  have a: "str c @ ''_quantized'' \<noteq> ''48_hq''"
    using str_longer[of c "''_quantized''" "''48_hq''"] by auto
  have b: "str c @ ''_quantized'' \<noteq> CHR ''_'' # t" for t by (rule str_append_underscore)
  show ?thesis using a b str_nonempty[of c] by (simp add: is_pretrained_keys)
qed

lemma name_extra: "\<not> is_pretrained (''demucs'' @ str c @ ''_extra'')"
proof -
  have a: "str c @ ''_extra'' \<noteq> ''48_hq''"
    using str_longer[of c "''_extra''" "''48_hq''"] by auto
  have b: "str c @ ''_extra'' \<noteq> CHR ''_'' # t" for t by (rule str_append_underscore)
  show ?thesis using a b str_nonempty[of c] by (simp add: is_pretrained_keys)
qed

lemma name_hq: "is_pretrained (''demucs'' @ str c @ ''_hq'') = (c = 48)"
proof -
  have "(str c @ ''_hq'' = ''48'' @ ''_hq'') = (str c = ''48'')" by (rule append_same_eq)
  then have a: "(str c @ ''_hq'' = ''48_hq'') = (c = 48)" using str_48[of c] by simp
  have b: "str c @ ''_hq'' \<noteq> CHR ''_'' # t" for t by (rule str_append_underscore)
  show ?thesis using a b str_nonempty[of c] by (simp add: is_pretrained_keys)
qed

subsection \<open>Channel counts and the dispatch by name\<close>

lemma demucs_load:
  "sum_flags [extra, quantized, hq] \<le> 1 \<Longrightarrow>
   demucs e True extra quantized hq channels =
     (if quantized then
        seq ([EvConstruct ArchDemucs channels, EvQuantizer (Demucs channels SOURCES) 8 1],
             Inr ())
          (\<lambda>_. load_state e (demucs_name channels extra quantized hq)
                 ((Demucs channels SOURCES)\<lparr>hooks := True\<rparr>)
                 (Some \<lparr>group_size = 8, min_size = 1\<rparr>))
      else
        seq ([EvConstruct ArchDemucs channels], Inr ())
          (\<lambda>_. load_state e (demucs_name channels extra quantized hq)
                 (Demucs channels SOURCES) None))"
  by (cases "load_state e (demucs_name channels extra quantized hq)
                 ((Demucs channels SOURCES)\<lparr>hooks := True\<rparr>)
                 (Some \<lparr>group_size = 8, min_size = 1\<rparr>)";
      cases "load_state e (demucs_name channels extra quantized hq)
                 (Demucs channels SOURCES) None")
     (simp add: demucs_def demucs_name_def sum_flags_def DiffQuantizer_def Let_def)

lemma demucs_name_table:
  "channels \<noteq> 64 \<Longrightarrow> sum_flags [extra, quantized, hq] \<le> 1 \<Longrightarrow>
   is_pretrained (demucs_name channels extra quantized hq) = (channels = 48 \<and> hq)"
  using name_plain[of channels] name_quantized[of channels] name_extra[of channels]
    name_hq[of channels]
  by (cases extra; cases quantized; cases hq)
     (simp_all add: demucs_name_def sum_flags_def)

text \<open>
  C10. With \<open>pretrained=True\<close> and a channel count other than 64: with no flag set the
  name passed on is \<open>demucs\<close> followed by \<open>str(channels)\<close>, which is no key of the table,
  and the run is the construction of the model followed by \<open>KeyError\<close>, with no download.
  With at most one flag set, the name built is a key of the table exactly when the channel
  count is 48 and \<open>hq\<close> is set; in every other case the run ends in \<open>KeyError\<close> for that
  name before any download, and in that one case \<open>demucs48_hq-28a1282c.th\<close> is requested.
\<close>

theorem demucs_other_channels:
  "channels \<noteq> 64 \<longrightarrow>
     demucs_name channels False False False = ''demucs'' @ str channels
     \<and> \<not> is_pretrained (''demucs'' @ str channels)
     \<and> demucs e True False False False channels =
         ([EvConstruct ArchDemucs channels], Inl (KeyError (''demucs'' @ str channels)))
     \<and> (sum_flags [extra, quantized, hq] \<le> 1 \<longrightarrow>
          (is_pretrained (demucs_name channels extra quantized hq) = (channels = 48 \<and> hq))
          \<and> (\<not> (channels = 48 \<and> hq) \<longrightarrow>
                demucs e True extra quantized hq channels =
                  (EvConstruct ArchDemucs channels
                     # (if quantized then [EvQuantizer (Demucs channels SOURCES) 8 1] else []),
                   Inl (KeyError (demucs_name channels extra quantized hq))))
          \<and> (channels = 48 \<and> hq \<longrightarrow>
                demucs_name channels extra quantized hq = ''demucs48_hq''
                \<and> EvDownload (ROOT @ ''demucs48_hq-28a1282c.th'')
                     \<in> set (fst (demucs e True extra quantized hq channels))))"
proof (intro impI conjI)
  assume c: "channels \<noteq> 64"
  show n0: "demucs_name channels False False False = ''demucs'' @ str channels"
    using c by (simp add: demucs_name_def)
  show np: "\<not> is_pretrained (''demucs'' @ str channels)" by (rule name_plain)
  have none: "map_of PRETRAINED_MODELS (''demucs'' @ str channels) = None"
    using np by (simp add: is_pretrained_def)
  have s0: "sum_flags [False, False, False] \<le> 1" by (simp add: sum_flags_def)
  show "demucs e True False False False channels =
         ([EvConstruct ArchDemucs channels], Inl (KeyError (''demucs'' @ str channels)))"
    unfolding demucs_load[OF s0] n0 load_state_unknown[OF none] by simp
next
  assume c: "channels \<noteq> 64" and s: "sum_flags [extra, quantized, hq] \<le> 1"
  show "is_pretrained (demucs_name channels extra quantized hq) = (channels = 48 \<and> hq)"
    using c s by (rule demucs_name_table)
next
  assume c: "channels \<noteq> 64" and s: "sum_flags [extra, quantized, hq] \<le> 1"
    and n: "\<not> (channels = 48 \<and> hq)"
  have "\<not> is_pretrained (demucs_name channels extra quantized hq)"
    using demucs_name_table[OF c s] n by blast
  then have none: "map_of PRETRAINED_MODELS (demucs_name channels extra quantized hq) = None"
    by (simp add: is_pretrained_def)
  show "demucs e True extra quantized hq channels =
          (EvConstruct ArchDemucs channels
             # (if quantized then [EvQuantizer (Demucs channels SOURCES) 8 1] else []),
           Inl (KeyError (demucs_name channels extra quantized hq)))"
    unfolding demucs_load[OF s] load_state_unknown[OF none] by simp
next
  assume c: "channels \<noteq> 64" and s: "sum_flags [extra, quantized, hq] \<le> 1"
    and y: "channels = 48 \<and> hq"
  have f: "\<not> extra" "\<not> quantized" using s y by (auto simp: sum_flags_def split: if_splits)
  have s48: "str 48 = ''48''" using str_48[of 48] by simp
  show nm: "demucs_name channels extra quantized hq = ''demucs48_hq''"
    using y f by (simp add: demucs_name_def s48)
  show "EvDownload (ROOT @ ''demucs48_hq-28a1282c.th'')
          \<in> set (fst (demucs e True extra quantized hq channels))"
    unfolding demucs_load[OF s] nm using f
    by (simp add: load_state_known[OF map_of_table(2)] split: sum.splits)
qed

theorem demucs_other_channels_witness:
  "(32::int) \<noteq> 64
   \<and> demucs sample_env True False False False 32 =
       ([EvConstruct ArchDemucs 32], Inl (KeyError (''demucs'' @ str 32)))
   \<and> sum_flags [False, True, False] \<le> 1
   \<and> \<not> (32 = (48::int) \<and> False)
   \<and> demucs sample_env True False True False 32 =
       ([EvConstruct ArchDemucs 32, EvQuantizer (Demucs 32 SOURCES) 8 1],
        Inl (KeyError (demucs_name 32 False True False)))
   \<and> (48::int) \<noteq> 64 \<and> sum_flags [False, False, True] \<le> 1
   \<and> is_pretrained (demucs_name 48 False False True)
   \<and> EvDownload (ROOT @ ''demucs48_hq-28a1282c.th'')
        \<in> set (fst (demucs sample_env True False False True 48))"
proof -
  have h1: "(32::int) \<noteq> 64" and h2: "sum_flags [False, True, False] \<le> 1"
    and h3: "\<not> (32 = (48::int) \<and> False)" and h4: "(48::int) \<noteq> 64"
    and h5: "sum_flags [False, False, True] \<le> 1"
    by (simp_all add: sum_flags_def)
  note a = demucs_other_channels[of 32 sample_env False True False]
  note b = demucs_other_channels[of 48 sample_env False False True]
  from a h1 have r1: "demucs sample_env True False False False 32 =
       ([EvConstruct ArchDemucs 32], Inl (KeyError (''demucs'' @ str 32)))"
    by blast
  from a h1 h2 h3 have "demucs sample_env True False True False 32 =
       (EvConstruct ArchDemucs 32
          # (if True then [EvQuantizer (Demucs 32 SOURCES) 8 1] else []),
        Inl (KeyError (demucs_name 32 False True False)))"
    by blast
  then have r2: "demucs sample_env True False True False 32 =
       ([EvConstruct ArchDemucs 32, EvQuantizer (Demucs 32 SOURCES) 8 1],
        Inl (KeyError (demucs_name 32 False True False)))"
    by simp
  from b h4 h5 have r3: "is_pretrained (demucs_name 48 False False True)" by blast
  from b h4 h5 have r4: "EvDownload (ROOT @ ''demucs48_hq-28a1282c.th'')
        \<in> set (fst (demucs sample_env True False False True 48))"
    by blast
  show ?thesis using h1 h2 h3 h4 h5 r1 r2 r3 r4 by blast
qed

lemma demucs_one_construct:
  "sum_flags [extra, quantized, hq] \<le> 1 \<Longrightarrow>
   length (filter is_construct (fst (demucs e True extra quantized hq channels))) = 1"
  unfolding demucs_load
  by (simp add: load_state_no_construct) (simp add: is_construct_def)

lemma tasnet_one_construct:
  "length (filter is_construct (fst (tasnet e True extra))) = 1"
  by (simp add: tasnet_def load_state_no_construct) (simp add: is_construct_def)

lemma demucs_unittest_one_construct:
  "length (filter is_construct (fst (demucs_unittest e True))) = 1"
  by (simp add: demucs_unittest_def load_state_no_construct) (simp add: is_construct_def)

text \<open>
  C9. \<open>load_pretrained\<close> compares the name with the seven names \<open>demucs\<close>,
  \<open>demucs48_hq\<close>, \<open>demucs_extra\<close>, \<open>demucs_quantized\<close>, \<open>demucs_unittest\<close>,
  \<open>tasnet\<close>, \<open>tasnet_extra\<close>. For each of them the run is the run of one builder
  call, in which exactly one model is constructed; for any other name the result is
  \<open>ValueError\<close> and nothing has happened.
\<close>

theorem load_pretrained_dispatch:
  "(name \<notin> set [''demucs'', ''demucs48_hq'', ''demucs_extra'', ''demucs_quantized'',
                  ''tasnet'', ''tasnet_extra'', ''demucs_unittest''] \<longrightarrow>
      load_pretrained e name = ([], Inl (ValueError (''Invalid pretrained name '' @ name))))
   \<and> (name \<in> set [''demucs'', ''demucs48_hq'', ''demucs_extra'', ''demucs_quantized'',
                   ''tasnet'', ''tasnet_extra'', ''demucs_unittest''] \<longrightarrow>
        length (filter is_construct (fst (load_pretrained e name))) = 1)
   \<and> load_pretrained e ''demucs'' = demucs e True False False False 64
   \<and> load_pretrained e ''demucs48_hq'' = demucs e True False False True 48
   \<and> load_pretrained e ''demucs_extra'' = demucs e True True False False 64
   \<and> load_pretrained e ''demucs_quantized'' = demucs e True False True False 64
   \<and> load_pretrained e ''demucs_unittest'' = demucs_unittest e True
   \<and> load_pretrained e ''tasnet'' = tasnet e True False
   \<and> load_pretrained e ''tasnet_extra'' = tasnet e True True"
proof -
  have eqs:
    "load_pretrained e ''demucs'' = demucs e True False False False 64"
    "load_pretrained e ''demucs48_hq'' = demucs e True False False True 48"
    "load_pretrained e ''demucs_extra'' = demucs e True True False False 64"
    "load_pretrained e ''demucs_quantized'' = demucs e True False True False 64"
    "load_pretrained e ''demucs_unittest'' = demucs_unittest e True"
    "load_pretrained e ''tasnet'' = tasnet e True False"
    "load_pretrained e ''tasnet_extra'' = tasnet e True True"
    by (simp_all add: load_pretrained_def)
  have flags: "sum_flags [False, False, False] \<le> 1" "sum_flags [False, False, True] \<le> 1"
    "sum_flags [True, False, False] \<le> 1" "sum_flags [False, True, False] \<le> 1"
    by (simp_all add: sum_flags_def)
  have other: "load_pretrained e name =
      ([], Inl (ValueError (''Invalid pretrained name '' @ name)))"
    if "name \<notin> set [''demucs'', ''demucs48_hq'', ''demucs_extra'', ''demucs_quantized'',
                  ''tasnet'', ''tasnet_extra'', ''demucs_unittest'']"
    using that by (simp add: load_pretrained_def)
  have one: "length (filter is_construct (fst (load_pretrained e name))) = 1"
    if "name \<in> set [''demucs'', ''demucs48_hq'', ''demucs_extra'', ''demucs_quantized'',
                  ''tasnet'', ''tasnet_extra'', ''demucs_unittest'']"
  proof -
    from that have dj: "name = ''demucs'' \<or> name = ''demucs48_hq''
        \<or> name = ''demucs_extra'' \<or> name = ''demucs_quantized'' \<or> name = ''tasnet''
        \<or> name = ''tasnet_extra'' \<or> name = ''demucs_unittest''"
      by (simp only: list.set insert_iff empty_iff simp_thms)
    from dj show ?thesis
    proof (elim disjE)
      assume n: "name = ''demucs''"
      show ?thesis unfolding n eqs by (rule demucs_one_construct[OF flags(1)])
    next
      assume n: "name = ''demucs48_hq''"
      show ?thesis unfolding n eqs by (rule demucs_one_construct[OF flags(2)])
    next
      assume n: "name = ''demucs_extra''"
      show ?thesis unfolding n eqs by (rule demucs_one_construct[OF flags(3)])
    next
      assume n: "name = ''demucs_quantized''"
      show ?thesis unfolding n eqs by (rule demucs_one_construct[OF flags(4)])
    next
      assume n: "name = ''tasnet''"
      show ?thesis unfolding n eqs by (rule tasnet_one_construct)
    next
      assume n: "name = ''tasnet_extra''"
      show ?thesis unfolding n eqs by (rule tasnet_one_construct)
    next
      assume n: "name = ''demucs_unittest''"
      show ?thesis unfolding n eqs by (rule demucs_unittest_one_construct)
    qed
  qed
  show ?thesis using eqs other one by blast
qed

theorem load_pretrained_dispatch_witness:
  "''mdx'' \<notin> set [''demucs'', ''demucs48_hq'', ''demucs_extra'', ''demucs_quantized'',
                  ''tasnet'', ''tasnet_extra'', ''demucs_unittest'']
   \<and> load_pretrained sample_env ''mdx'' =
        ([], Inl (ValueError (''Invalid pretrained name '' @ ''mdx'')))
   \<and> ''tasnet'' \<in> set [''demucs'', ''demucs48_hq'', ''demucs_extra'', ''demucs_quantized'',
                  ''tasnet'', ''tasnet_extra'', ''demucs_unittest'']
   \<and> length (filter is_construct (fst (load_pretrained sample_env ''tasnet''))) = 1
   \<and> load_pretrained sample_env ''tasnet'' = tasnet sample_env True False"
proof -
  have a: "''mdx'' \<notin> set [''demucs'', ''demucs48_hq'', ''demucs_extra'', ''demucs_quantized'',
                  ''tasnet'', ''tasnet_extra'', ''demucs_unittest'']"
    by simp
  have b: "''tasnet'' \<in> set [''demucs'', ''demucs48_hq'', ''demucs_extra'', ''demucs_quantized'',
                  ''tasnet'', ''tasnet_extra'', ''demucs_unittest'']"
    by simp
  note m = load_pretrained_dispatch[of "''mdx''" sample_env]
  note t = load_pretrained_dispatch[of "''tasnet''" sample_env]
  from m a have r1: "load_pretrained sample_env ''mdx'' =
        ([], Inl (ValueError (''Invalid pretrained name '' @ ''mdx'')))"
    by blast
  from t b have r2: "length (filter is_construct (fst (load_pretrained sample_env ''tasnet''))) = 1"
    by blast
  from t have r3: "load_pretrained sample_env ''tasnet'' = tasnet sample_env True False"
    by blast
  show ?thesis using a b r1 r2 r3 by blast
qed

end
